theory Spec2Isabelle
  imports Main
begin

section \<open>The chat lock of signalbot/plugins/plugin.py\<close>

text \<open>
  The module builds a drain-then-exclusive lock out of two \<^verbatim>\<open>threading.Lock\<close>s, two
  integer counters and one \<^verbatim>\<open>threading.Condition\<close>. The embedding is an interleaving
  semantics: the shared objects form one record, every thread has a program counter
  that names the source statement it executes next, and one step of one thread is one
  lock operation or one statement executed under the condition's mutex. A step that
  would block in Python (acquiring a held lock, sleeping in \<^verbatim>\<open>wait()\<close>) is not
  enabled: \<open>step\<close> returns \<open>None\<close>.
\<close>

subsection \<open>Data\<close>

text \<open>
  Errors. \<open>Busy\<close> is the \<^verbatim>\<open>Exception('Exclusive lock could not be acquired.')\<close> of
  \<^verbatim>\<open>ChatLock.__enter__\<close>; \<open>ReleaseUnlocked\<close> is the \<^verbatim>\<open>RuntimeError\<close> that
  \<^verbatim>\<open>Lock.release()\<close> raises on a lock that is not held; \<open>TargetError\<close> is an exception
  raised by the \<^verbatim>\<open>target\<close> that \<^verbatim>\<open>Plugin._thread_start\<close> runs.
\<close>

datatype error = Busy | ReleaseUnlocked | TargetError

text \<open>
  What a thread runs:
  \<^item> \<open>SharedWork raises\<close>: \<^verbatim>\<open>Plugin._thread_start\<close> with a target that does not touch the
    chat lock and either returns (\<open>raises = False\<close>) or raises;
  \<^item> \<open>SharedExcl\<close>: \<^verbatim>\<open>Plugin._thread_start\<close> with a target whose body is
    \<^verbatim>\<open>with self.chat_lock: pass\<close>;
  \<^item> \<open>BareExcl\<close>: \<^verbatim>\<open>with chat_lock: pass\<close> in a thread that is outside the threadcount
    context.
\<close>

datatype script = SharedWork bool | SharedExcl | BareExcl

text \<open>Program counters, named after the method and the statement (source line).\<close>

datatype pc =
    TcEnter_entry_acquire     \<comment> \<open>ChatThreadcount.__enter__, l.23: with entry lock\<close>
  | TcEnter_lock_acquire      \<comment> \<open>l.30, wait_until_unblocked l.115: with self._lock\<close>
  | TcEnter_lock_release      \<comment> \<open>l.115-116: leave with self._lock\<close>
  | TcEnter_cond_acquire      \<comment> \<open>l.33: with self._condition\<close>
  | TcEnter_incr              \<comment> \<open>l.34: self._count += 1\<close>
  | TcEnter_cond_release      \<comment> \<open>l.33-34: leave with self._condition\<close>
  | TcEnter_entry_release     \<comment> \<open>l.23-34: leave with entry lock\<close>
  | Target                    \<comment> \<open>Plugin._thread_start, l.129: target(*args)\<close>
  | TcExit_cond_acquire       \<comment> \<open>ChatThreadcount.__exit__, l.39\<close>
  | TcExit_decr               \<comment> \<open>l.41, l.46: self._count -= 1; notify()\<close>
  | TcExit_cond_release       \<comment> \<open>l.39-46: leave with self._condition\<close>
  | Add_cond_acquire          \<comment> \<open>add_blocking_candidate, l.49\<close>
  | Add_incr                  \<comment> \<open>l.50-51: candidates += 1; notify_all()\<close>
  | Add_cond_release          \<comment> \<open>l.49-51: leave with self._condition\<close>
  | ClEnter_entry_acquire     \<comment> \<open>ChatLock.__enter__, l.84: with self._entry_lock\<close>
  | ClEnter_try               \<comment> \<open>l.88: unblocked = self._lock.acquire(False)\<close>
  | ClEnter_if_unblocked      \<comment> \<open>l.97: if unblocked\<close>
  | Wait_cond_acquire         \<comment> \<open>wait_until_only_blocking_candidates, l.59\<close>
  | Wait_test                 \<comment> \<open>l.60: while count > candidates; l.61: wait() enqueues and releases\<close>
  | Wait_blocked              \<comment> \<open>l.61: inside wait(), until notified\<close>
  | Wait_reacquire            \<comment> \<open>l.61: inside wait(), taking the mutex again\<close>
  | Wait_cond_release         \<comment> \<open>l.59-61: loop left, leave with self._condition\<close>
  | ClEnter_entry_release     \<comment> \<open>l.84-98: leave with self._entry_lock\<close>
  | ClEnter_if_not_unblocked  \<comment> \<open>l.105-106: if not unblocked: raise\<close>
  | Body                      \<comment> \<open>the body of with chat_lock\<close>
  | ClExit_lock_release       \<comment> \<open>ChatLock.__exit__, l.109: self._lock.release()\<close>
  | Rem_cond_acquire          \<comment> \<open>remove_blocking_candidate, l.54\<close>
  | Rem_decr                  \<comment> \<open>l.55-56: candidates -= 1; notify_all()\<close>
  | Rem_cond_release          \<comment> \<open>l.54-56: leave with self._condition\<close>
  | Finished                  \<comment> \<open>the thread has returned or died with exc\<close>

text \<open>
  A thread: its script, its program counter, the local variable \<^verbatim>\<open>unblocked\<close> of
  \<^verbatim>\<open>ChatLock.__enter__\<close>, and the exception that is propagating (if any).
\<close>

record thread =
  script :: script
  pc :: pc
  unblocked :: bool
  exc :: "error option"

text \<open>
  The shared objects of one \<^verbatim>\<open>ChatLock\<close> with its \<^verbatim>\<open>ChatThreadcount\<close>. A lock is
  \<open>None\<close> when free and \<open>Some t\<close> when held, \<open>t\<close> being the thread that acquired it.
  \<open>waiters\<close> is the queue of threads sleeping in \<^verbatim>\<open>self._condition.wait()\<close>, oldest
  first.
\<close>

record gate =
  count :: int                          \<comment> \<open>self._count\<close>
  blocking_candidates_count :: int      \<comment> \<open>self._blocking_candidates_count\<close>
  lock :: "nat option"                  \<comment> \<open>ChatLock._lock\<close>
  entry_lock :: "nat option"            \<comment> \<open>ChatLock._entry_lock\<close>
  condition :: "nat option"             \<comment> \<open>the mutex of self._condition\<close>
  waiters :: "nat list"                 \<comment> \<open>the waiters of self._condition\<close>
  threads :: "thread list"

subsection \<open>The condition variable\<close>

text \<open>
  \<^verbatim>\<open>Condition.notify(n=1)\<close> wakes the \<open>n\<close> oldest waiters and removes them from the
  queue; \<^verbatim>\<open>notify_all()\<close> is \<^verbatim>\<open>notify(len(waiters))\<close>.
\<close>

definition notify :: "nat \<Rightarrow> nat list \<Rightarrow> nat list" where
  "notify n ws = drop n ws"

definition notify_all :: "nat list \<Rightarrow> nat list" where
  "notify_all ws = notify (length ws) ws"

subsection \<open>One step of one thread\<close>

definition first_pc :: "script \<Rightarrow> pc" where
  "first_pc sc = (case sc of BareExcl \<Rightarrow> Add_cond_acquire | _ \<Rightarrow> TcEnter_entry_acquire)"

definition new_thread :: "script \<Rightarrow> thread" where
  "new_thread sc = \<lparr>script = sc, pc = first_pc sc, unblocked = False, exc = None\<rparr>"

text \<open>
  The gate as \<^verbatim>\<open>ChatLock.__init__\<close> and \<^verbatim>\<open>ChatThreadcount.__init__\<close> leave it,
  with one thread per script, none of which has run yet.
\<close>

definition initial :: "script list \<Rightarrow> gate" where
  "initial scs = \<lparr>count = 0, blocking_candidates_count = 0, lock = None,
     entry_lock = None, condition = None, waiters = [], threads = map new_thread scs\<rparr>"

definition goto :: "nat \<Rightarrow> pc \<Rightarrow> gate \<Rightarrow> gate" where
  "goto t p s = s\<lparr>threads := (threads s)[t := (threads s ! t)\<lparr>pc := p\<rparr>]\<rparr>"

definition set_unblocked :: "nat \<Rightarrow> bool \<Rightarrow> gate \<Rightarrow> gate" where
  "set_unblocked t b s = s\<lparr>threads := (threads s)[t := (threads s ! t)\<lparr>unblocked := b\<rparr>]\<rparr>"

definition raise_exc :: "nat \<Rightarrow> error \<Rightarrow> gate \<Rightarrow> gate" where
  "raise_exc t e s = s\<lparr>threads := (threads s)[t := (threads s ! t)\<lparr>exc := Some e\<rparr>]\<rparr>"

text \<open>
  Where control goes when the \<^verbatim>\<open>with chat_lock\<close> statement is left, normally or by an
  exception: inside \<^verbatim>\<open>_thread_start\<close> the enclosing \<^verbatim>\<open>with\<close> runs
  \<^verbatim>\<open>ChatThreadcount.__exit__\<close>; a bare caller is done.
\<close>

definition after_chat_lock :: "script \<Rightarrow> pc" where
  "after_chat_lock sc = (case sc of BareExcl \<Rightarrow> Finished | _ \<Rightarrow> TcExit_cond_acquire)"

definition step :: "nat \<Rightarrow> gate \<Rightarrow> gate option" where
  "step t s =
    (if \<not> t < length (threads s) then None
     else let th = threads s ! t in
      case pc th of
        TcEnter_entry_acquire \<Rightarrow>
          (if entry_lock s = None
           then Some (goto t TcEnter_lock_acquire (s\<lparr>entry_lock := Some t\<rparr>)) else None)
      | TcEnter_lock_acquire \<Rightarrow>
          (if lock s = None
           then Some (goto t TcEnter_lock_release (s\<lparr>lock := Some t\<rparr>)) else None)
      | TcEnter_lock_release \<Rightarrow>
          Some (goto t TcEnter_cond_acquire (s\<lparr>lock := None\<rparr>))
      | TcEnter_cond_acquire \<Rightarrow>
          (if condition s = None
           then Some (goto t TcEnter_incr (s\<lparr>condition := Some t\<rparr>)) else None)
      | TcEnter_incr \<Rightarrow>
          Some (goto t TcEnter_cond_release (s\<lparr>count := count s + 1\<rparr>))
      | TcEnter_cond_release \<Rightarrow>
          Some (goto t TcEnter_entry_release (s\<lparr>condition := None\<rparr>))
      | TcEnter_entry_release \<Rightarrow>
          Some (goto t Target (s\<lparr>entry_lock := None\<rparr>))
      | Target \<Rightarrow>
          (case script th of
             SharedWork raises \<Rightarrow>
               Some (goto t TcExit_cond_acquire (if raises then raise_exc t TargetError s else s))
           | _ \<Rightarrow> Some (goto t Add_cond_acquire s))
      | TcExit_cond_acquire \<Rightarrow>
          (if condition s = None
           then Some (goto t TcExit_decr (s\<lparr>condition := Some t\<rparr>)) else None)
      | TcExit_decr \<Rightarrow>
          Some (goto t TcExit_cond_release
            (s\<lparr>count := count s - 1, waiters := notify 1 (waiters s)\<rparr>))
      | TcExit_cond_release \<Rightarrow>
          Some (goto t Finished (s\<lparr>condition := None\<rparr>))
      | Add_cond_acquire \<Rightarrow>
          (if condition s = None
           then Some (goto t Add_incr (s\<lparr>condition := Some t\<rparr>)) else None)
      | Add_incr \<Rightarrow>
          Some (goto t Add_cond_release
            (s\<lparr>blocking_candidates_count := blocking_candidates_count s + 1,
               waiters := notify_all (waiters s)\<rparr>))
      | Add_cond_release \<Rightarrow>
          Some (goto t ClEnter_entry_acquire (s\<lparr>condition := None\<rparr>))
      | ClEnter_entry_acquire \<Rightarrow>
          (if entry_lock s = None
           then Some (goto t ClEnter_try (s\<lparr>entry_lock := Some t\<rparr>)) else None)
      | ClEnter_try \<Rightarrow>
          (if lock s = None
           then Some (goto t ClEnter_if_unblocked (set_unblocked t True (s\<lparr>lock := Some t\<rparr>)))
           else Some (goto t ClEnter_if_unblocked (set_unblocked t False s)))
      | ClEnter_if_unblocked \<Rightarrow>
          (if unblocked th then Some (goto t Wait_cond_acquire s)
           else Some (goto t ClEnter_entry_release s))
      | Wait_cond_acquire \<Rightarrow>
          (if condition s = None
           then Some (goto t Wait_test (s\<lparr>condition := Some t\<rparr>)) else None)
      | Wait_test \<Rightarrow>
          (if count s > blocking_candidates_count s
           then Some (goto t Wait_blocked
                  (s\<lparr>waiters := waiters s @ [t], condition := None\<rparr>))
           else Some (goto t Wait_cond_release s))
      | Wait_blocked \<Rightarrow>
          (if t \<in> set (waiters s) then None else Some (goto t Wait_reacquire s))
      | Wait_reacquire \<Rightarrow>
          (if condition s = None
           then Some (goto t Wait_test (s\<lparr>condition := Some t\<rparr>)) else None)
      | Wait_cond_release \<Rightarrow>
          Some (goto t ClEnter_entry_release (s\<lparr>condition := None\<rparr>))
      | ClEnter_entry_release \<Rightarrow>
          Some (goto t ClEnter_if_not_unblocked (s\<lparr>entry_lock := None\<rparr>))
      | ClEnter_if_not_unblocked \<Rightarrow>
          (if \<not> unblocked th
           then Some (goto t (after_chat_lock (script th)) (raise_exc t Busy s))
           else Some (goto t Body s))
      | Body \<Rightarrow> Some (goto t ClExit_lock_release s)
      | ClExit_lock_release \<Rightarrow>
          (if lock s = None
           then Some (goto t (after_chat_lock (script th)) (raise_exc t ReleaseUnlocked s))
           else Some (goto t Rem_cond_acquire (s\<lparr>lock := None\<rparr>)))
      | Rem_cond_acquire \<Rightarrow>
          (if condition s = None
           then Some (goto t Rem_decr (s\<lparr>condition := Some t\<rparr>)) else None)
      | Rem_decr \<Rightarrow>
          Some (goto t Rem_cond_release
            (s\<lparr>blocking_candidates_count := blocking_candidates_count s - 1,
               waiters := notify_all (waiters s)\<rparr>))
      | Rem_cond_release \<Rightarrow>
          Some (goto t (after_chat_lock (script th)) (s\<lparr>condition := None\<rparr>))
      | Finished \<Rightarrow> None)"

subsection \<open>Executions\<close>

text \<open>
  A schedule is the list of the threads that step, in order; \<open>exec\<close> runs it and is
  \<open>None\<close> when the schedule asks a thread to step that cannot.
\<close>

fun exec :: "nat list \<Rightarrow> gate \<Rightarrow> gate option" where
  "exec [] s = Some s"
| "exec (t # ts) s = (case step t s of None \<Rightarrow> None | Some s' \<Rightarrow> exec ts s')"

text \<open>The states the threads can reach from a fresh gate, in any interleaving.\<close>

inductive reachable :: "gate \<Rightarrow> bool" where
  fresh: "reachable (initial scs)"
| after_step: "reachable s \<Longrightarrow> step t s = Some s' \<Longrightarrow> reachable s'"

subsection \<open>Who holds what\<close>

text \<open>The statements executed between acquiring and releasing the entry lock.\<close>

fun entry_pc :: "pc \<Rightarrow> bool" where
  "entry_pc TcEnter_lock_acquire = True"
| "entry_pc TcEnter_lock_release = True"
| "entry_pc TcEnter_cond_acquire = True"
| "entry_pc TcEnter_incr = True"
| "entry_pc TcEnter_cond_release = True"
| "entry_pc TcEnter_entry_release = True"
| "entry_pc ClEnter_try = True"
| "entry_pc ClEnter_if_unblocked = True"
| "entry_pc Wait_cond_acquire = True"
| "entry_pc Wait_test = True"
| "entry_pc Wait_blocked = True"
| "entry_pc Wait_reacquire = True"
| "entry_pc Wait_cond_release = True"
| "entry_pc ClEnter_entry_release = True"
| "entry_pc _ = False"

text \<open>
  The statements of \<^verbatim>\<open>with chat_lock\<close> between the attempt on \<^verbatim>\<open>self._lock\<close> and its
  release; the thread holds the lock there when the attempt succeeded.
\<close>

fun flag_pc :: "pc \<Rightarrow> bool" where
  "flag_pc ClEnter_if_unblocked = True"
| "flag_pc Wait_cond_acquire = True"
| "flag_pc Wait_test = True"
| "flag_pc Wait_blocked = True"
| "flag_pc Wait_reacquire = True"
| "flag_pc Wait_cond_release = True"
| "flag_pc ClEnter_entry_release = True"
| "flag_pc ClEnter_if_not_unblocked = True"
| "flag_pc Body = True"
| "flag_pc ClExit_lock_release = True"
| "flag_pc _ = False"

text \<open>The statements executed under the mutex of the condition.\<close>

fun cond_pc :: "pc \<Rightarrow> bool" where
  "cond_pc TcEnter_incr = True"
| "cond_pc TcEnter_cond_release = True"
| "cond_pc TcExit_decr = True"
| "cond_pc TcExit_cond_release = True"
| "cond_pc Add_incr = True"
| "cond_pc Add_cond_release = True"
| "cond_pc Wait_test = True"
| "cond_pc Wait_cond_release = True"
| "cond_pc Rem_decr = True"
| "cond_pc Rem_cond_release = True"
| "cond_pc _ = False"

text \<open>The statements that only a successful attempt reaches.\<close>

fun success_pc :: "pc \<Rightarrow> bool" where
  "success_pc Wait_cond_acquire = True"
| "success_pc Wait_test = True"
| "success_pc Wait_blocked = True"
| "success_pc Wait_reacquire = True"
| "success_pc Wait_cond_release = True"
| "success_pc Body = True"
| "success_pc ClExit_lock_release = True"
| "success_pc Rem_cond_acquire = True"
| "success_pc Rem_decr = True"
| "success_pc Rem_cond_release = True"
| "success_pc _ = False"

definition holds_entry :: "thread \<Rightarrow> bool" where
  "holds_entry th = entry_pc (pc th)"

definition holds_lock :: "thread \<Rightarrow> bool" where
  "holds_lock th = (pc th = TcEnter_lock_release \<or> (unblocked th \<and> flag_pc (pc th)))"

definition holds_condition :: "thread \<Rightarrow> bool" where
  "holds_condition th = cond_pc (pc th)"

definition attempt_ok :: "thread \<Rightarrow> bool" where
  "attempt_ok th = (if success_pc (pc th) then unblocked th else True)"

definition thread_inv :: "gate \<Rightarrow> nat \<Rightarrow> bool" where
  "thread_inv s u =
     ((entry_lock s = Some u) = holds_entry (threads s ! u) \<and>
      (lock s = Some u) = holds_lock (threads s ! u) \<and>
      (condition s = Some u) = holds_condition (threads s ! u) \<and>
      attempt_ok (threads s ! u))"

definition locks_inv :: "gate \<Rightarrow> bool" where
  "locks_inv s = (\<forall>u < length (threads s). thread_inv s u)"

subsection \<open>Some states of the gate\<close>

text \<open>
  Two threads that each run \<^verbatim>\<open>with chat_lock: pass\<close>; thread 0 has entered and is in
  the body, thread 1 has not started.
\<close>

definition contested :: gate where
  "contested = \<lparr>count = 0, blocking_candidates_count = 1, lock = Some 0,
     entry_lock = None, condition = None, waiters = [],
     threads = [\<lparr>script = BareExcl, pc = Body, unblocked = True, exc = None\<rparr>,
                new_thread BareExcl]\<rparr>"


text \<open>The same, after thread 1 has left \<^verbatim>\<open>ChatLock.__enter__\<close> with the exception.\<close>

definition refused :: gate where
  "refused = \<lparr>count = 0, blocking_candidates_count = 2, lock = Some 0,
     entry_lock = None, condition = None, waiters = [],
     threads = [\<lparr>script = BareExcl, pc = Body, unblocked = True, exc = None\<rparr>,
                \<lparr>script = BareExcl, pc = Finished, unblocked = False, exc = Some Busy\<rparr>]\<rparr>"



text \<open>
  Two workers are past their targets, thread 2 sleeps in \<^verbatim>\<open>wait()\<close> for them, and
  worker 0 is about to decrement the count.
\<close>

definition sleeping :: gate where
  "sleeping = \<lparr>count = 2, blocking_candidates_count = 1, lock = Some 2,
     entry_lock = Some 2, condition = Some 0, waiters = [2],
     threads = [\<lparr>script = SharedWork False, pc = TcExit_decr, unblocked = False, exc = None\<rparr>,
                \<lparr>script = SharedWork False, pc = TcExit_cond_acquire, unblocked = False,
                   exc = None\<rparr>,
                \<lparr>script = BareExcl, pc = Wait_blocked, unblocked = True, exc = None\<rparr>]\<rparr>"

text \<open>
  A counter with two sleepers, as when two threads call the public method
  \<^verbatim>\<open>wait_until_only_blocking_candidates\<close> themselves, and a worker about to decrement.
\<close>

definition two_sleepers :: gate where
  "two_sleepers = \<lparr>count = 3, blocking_candidates_count = 0, lock = None,
     entry_lock = None, condition = Some 0, waiters = [1, 2],
     threads = [\<lparr>script = SharedWork False, pc = TcExit_decr, unblocked = False, exc = None\<rparr>,
                \<lparr>script = BareExcl, pc = Wait_blocked, unblocked = True, exc = None\<rparr>,
                \<lparr>script = BareExcl, pc = Wait_blocked, unblocked = True, exc = None\<rparr>]\<rparr>"


text \<open>Two workers about to run their targets; the first target will raise.\<close>

definition working :: gate where
  "working = \<lparr>count = 2, blocking_candidates_count = 0, lock = None,
     entry_lock = None, condition = None, waiters = [],
     threads = [\<lparr>script = SharedWork True, pc = Target, unblocked = False, exc = None\<rparr>,
                \<lparr>script = SharedWork False, pc = Target, unblocked = False, exc = None\<rparr>]\<rparr>"

text \<open>The same two workers when both have left \<^verbatim>\<open>_thread_start\<close>.\<close>

definition all_done :: gate where
  "all_done = \<lparr>count = 0, blocking_candidates_count = 0, lock = None,
     entry_lock = None, condition = None, waiters = [],
     threads = [\<lparr>script = SharedWork True, pc = Finished, unblocked = False,
                   exc = Some TargetError\<rparr>,
                \<lparr>script = SharedWork False, pc = Finished, unblocked = False, exc = None\<rparr>]\<rparr>"

text \<open>
  One thread that runs \<^verbatim>\<open>with chat_lock: pass\<close> on a fresh gate, about to increment the
  count of candidates, and the same thread about to decrement it.
\<close>

definition adding :: gate where
  "adding = \<lparr>count = 0, blocking_candidates_count = 0, lock = None,
     entry_lock = None, condition = Some 0, waiters = [],
     threads = [\<lparr>script = BareExcl, pc = Add_incr, unblocked = False, exc = None\<rparr>]\<rparr>"

definition removing :: gate where
  "removing = \<lparr>count = 0, blocking_candidates_count = 1, lock = None,
     entry_lock = None, condition = Some 0, waiters = [],
     threads = [\<lparr>script = BareExcl, pc = Rem_decr, unblocked = True, exc = None\<rparr>]\<rparr>"




definition removed :: gate where
  "removed = \<lparr>count = 1, blocking_candidates_count = 0, lock = None,
     entry_lock = None, condition = Some 0, waiters = [],
     threads = [\<lparr>script = SharedExcl, pc = Rem_cond_release, unblocked = True,
                   exc = None\<rparr>]\<rparr>"

text \<open>
  Two threads inside \<^verbatim>\<open>_thread_start\<close> run \<^verbatim>\<open>with self.chat_lock\<close>. Thread 0 is in the
  body; thread 1 found the lock held and is at \<^verbatim>\<open>if not unblocked\<close>, then has raised,
  and at last both threads have left \<^verbatim>\<open>_thread_start\<close>.
\<close>

definition turned_away :: gate where
  "turned_away = \<lparr>count = 2, blocking_candidates_count = 2, lock = Some 0,
     entry_lock = None, condition = None, waiters = [],
     threads = [\<lparr>script = SharedExcl, pc = Body, unblocked = True, exc = None\<rparr>,
                \<lparr>script = SharedExcl, pc = ClEnter_if_not_unblocked, unblocked = False,
                   exc = None\<rparr>]\<rparr>"

definition leaving :: gate where
  "leaving = \<lparr>count = 2, blocking_candidates_count = 2, lock = Some 0,
     entry_lock = None, condition = None, waiters = [],
     threads = [\<lparr>script = SharedExcl, pc = Body, unblocked = True, exc = None\<rparr>,
                \<lparr>script = SharedExcl, pc = TcExit_cond_acquire, unblocked = False,
                   exc = Some Busy\<rparr>]\<rparr>"

definition both_left :: gate where
  "both_left = \<lparr>count = 0, blocking_candidates_count = 1, lock = None,
     entry_lock = None, condition = None, waiters = [],
     threads = [\<lparr>script = SharedExcl, pc = Finished, unblocked = True, exc = None\<rparr>,
                \<lparr>script = SharedExcl, pc = Finished, unblocked = False,
                   exc = Some Busy\<rparr>]\<rparr>"




subsection \<open>Who is counted\<close>

text \<open>The statements of \<^verbatim>\<open>with chat_lock\<close>, from \<^verbatim>\<open>__enter__\<close> to the end of \<^verbatim>\<open>__exit__\<close>.\<close>

fun chat_pc :: "pc \<Rightarrow> bool" where
  "chat_pc Add_cond_acquire = True"
| "chat_pc Add_incr = True"
| "chat_pc Add_cond_release = True"
| "chat_pc ClEnter_entry_acquire = True"
| "chat_pc ClEnter_try = True"
| "chat_pc ClEnter_if_unblocked = True"
| "chat_pc Wait_cond_acquire = True"
| "chat_pc Wait_test = True"
| "chat_pc Wait_blocked = True"
| "chat_pc Wait_reacquire = True"
| "chat_pc Wait_cond_release = True"
| "chat_pc ClEnter_entry_release = True"
| "chat_pc ClEnter_if_not_unblocked = True"
| "chat_pc Body = True"
| "chat_pc ClExit_lock_release = True"
| "chat_pc Rem_cond_acquire = True"
| "chat_pc Rem_decr = True"
| "chat_pc Rem_cond_release = True"
| "chat_pc _ = False"

text \<open>
  The statements of \<^verbatim>\<open>_thread_start\<close> after \<^verbatim>\<open>self._count += 1\<close> and up to
  \<^verbatim>\<open>self._count -= 1\<close>, the target aside.
\<close>

fun inside_pc :: "pc \<Rightarrow> bool" where
  "inside_pc TcEnter_cond_release = True"
| "inside_pc TcEnter_entry_release = True"
| "inside_pc Target = True"
| "inside_pc TcExit_cond_acquire = True"
| "inside_pc TcExit_decr = True"
| "inside_pc _ = False"


text \<open>Where a thread with a propagating exception can be.\<close>

fun exit_pc :: "pc \<Rightarrow> bool" where
  "exit_pc TcExit_cond_acquire = True"
| "exit_pc TcExit_decr = True"
| "exit_pc TcExit_cond_release = True"
| "exit_pc Finished = True"
| "exit_pc _ = False"



text \<open>
  A thread is in shared mode from its increment of \<^verbatim>\<open>_count\<close> to its decrement; a
  \<^verbatim>\<open>with chat_lock\<close> inside \<^verbatim>\<open>_thread_start\<close> is part of that.
\<close>

definition in_shared :: "thread \<Rightarrow> bool" where
  "in_shared th = (inside_pc (pc th) \<or> (chat_pc (pc th) \<and> script th \<noteq> BareExcl))"


definition tally :: "('a \<Rightarrow> bool) \<Rightarrow> 'a list \<Rightarrow> int" where
  "tally P xs = int (length (filter P xs))"

text \<open>What holds of a thread's own variables, whatever the others do.\<close>

definition local_inv :: "thread \<Rightarrow> bool" where
  "local_inv th =
     ((if script th = BareExcl then chat_pc (pc th) \<or> pc th = Finished else True) \<and>
      (if exc th = None then True else exit_pc (pc th)) \<and>
      (if exc th = Some Busy then \<not> unblocked th else True))"

text \<open>The sleeping threads are in \<^verbatim>\<open>wait()\<close>, each once.\<close>

definition waiters_inv :: "gate \<Rightarrow> bool" where
  "waiters_inv s =
     (distinct (waiters s) \<and>
      list_all (\<lambda>w. w < length (threads s) \<and> pc (threads s ! w) = Wait_blocked) (waiters s))"



section \<open>Invariants of the interleaving semantics\<close>

lemmas step_defs = goto_def set_unblocked_def raise_exc_def after_chat_lock_def
  notify_def notify_all_def

lemma step_in_range: "step t s = Some s' \<Longrightarrow> t < length (threads s)"
  by (cases "t < length (threads s)") (simp_all add: step_def)

lemma step_length:
  assumes "step t s = Some s'"
  shows "length (threads s') = length (threads s)"
  using assms step_in_range [OF assms]
  by (cases "pc (threads s ! t)";
        clarsimp simp: step_def Let_def step_defs split: if_splits script.splits)

lemma step_other:
  assumes "step t s = Some s'" and "u \<noteq> t"
  shows "threads s' ! u = threads s ! u"
  using assms step_in_range [OF assms(1)]
  by (cases "pc (threads s ! t)";
        clarsimp simp: step_def Let_def step_defs split: if_splits script.splits)

lemma step_script:
  assumes "step t s = Some s'"
  shows "script (threads s' ! u) = script (threads s ! u)"
proof (cases "u = t")
  case True
  with assms step_in_range [OF assms] show ?thesis
    by (cases "pc (threads s ! t)";
        clarsimp simp: step_def Let_def step_defs split: if_splits script.splits)
next
  case False
  with assms show ?thesis by (simp add: step_other)
qed

lemma locks_inv_initial: "locks_inv (initial scs)"
  by (auto simp: locks_inv_def thread_inv_def initial_def new_thread_def first_pc_def
      holds_entry_def holds_lock_def holds_condition_def attempt_ok_def split: script.splits)

lemma self_entry:
  assumes "(entry_lock s = Some t) = holds_entry (threads s ! t)" and "step t s = Some s'"
  shows "(entry_lock s' = Some t) = holds_entry (threads s' ! t)"
  using assms step_in_range [OF assms(2)]
  by (cases "pc (threads s ! t)";
        clarsimp simp: step_def Let_def step_defs holds_entry_def split: if_splits script.splits)

lemma other_entry:
  assumes "(entry_lock s = Some t) = holds_entry (threads s ! t)" and "(entry_lock s = Some u) = holds_entry (threads s ! u)"
    and "u \<noteq> t" and "u < length (threads s)" and "step t s = Some s'"
  shows "(entry_lock s' = Some u) = holds_entry (threads s' ! u)"
  using assms step_in_range [OF assms(5)] step_other [OF assms(5) assms(3)]
  by (cases "pc (threads s ! t)";
        clarsimp simp: step_def Let_def step_defs holds_entry_def split: if_splits script.splits)

lemma self_lock:
  assumes "(lock s = Some t) = holds_lock (threads s ! t)" and "attempt_ok (threads s ! t)" and "step t s = Some s'"
  shows "(lock s' = Some t) = holds_lock (threads s' ! t)"
  using assms step_in_range [OF assms(3)]
  by (cases "pc (threads s ! t)";
        clarsimp simp: step_def Let_def step_defs holds_lock_def attempt_ok_def split: if_splits script.splits)

lemma other_lock:
  assumes "(lock s = Some t) = holds_lock (threads s ! t)" and "(lock s = Some u) = holds_lock (threads s ! u)"
    and "u \<noteq> t" and "u < length (threads s)" and "step t s = Some s'"
    and "attempt_ok (threads s ! t)"
  shows "(lock s' = Some u) = holds_lock (threads s' ! u)"
  using assms step_in_range [OF assms(5)] step_other [OF assms(5) assms(3)]
  by (cases "pc (threads s ! t)";
        clarsimp simp: step_def Let_def step_defs holds_lock_def attempt_ok_def split: if_splits script.splits)

lemma self_cond:
  assumes "(condition s = Some t) = holds_condition (threads s ! t)" and "step t s = Some s'"
  shows "(condition s' = Some t) = holds_condition (threads s' ! t)"
  using assms step_in_range [OF assms(2)]
  by (cases "pc (threads s ! t)";
        clarsimp simp: step_def Let_def step_defs holds_condition_def split: if_splits script.splits)

lemma other_cond:
  assumes "(condition s = Some t) = holds_condition (threads s ! t)" and "(condition s = Some u) = holds_condition (threads s ! u)"
    and "u \<noteq> t" and "u < length (threads s)" and "step t s = Some s'"
  shows "(condition s' = Some u) = holds_condition (threads s' ! u)"
  using assms step_in_range [OF assms(5)] step_other [OF assms(5) assms(3)]
  by (cases "pc (threads s ! t)";
        clarsimp simp: step_def Let_def step_defs holds_condition_def split: if_splits script.splits)

lemma self_attempt:
  assumes "attempt_ok (threads s ! t)" and "step t s = Some s'"
  shows "attempt_ok (threads s' ! t)"
  using assms step_in_range [OF assms(2)]
  by (cases "pc (threads s ! t)";
        clarsimp simp: step_def Let_def step_defs attempt_ok_def split: if_splits script.splits)

lemma thread_inv_self:
  assumes "thread_inv s t" and "step t s = Some s'"
  shows "thread_inv s' t"
proof -
  from assms(1) have i: "(entry_lock s = Some t) = holds_entry (threads s ! t)"
    "(lock s = Some t) = holds_lock (threads s ! t)"
    "(condition s = Some t) = holds_condition (threads s ! t)"
    "attempt_ok (threads s ! t)"
    by (simp_all add: thread_inv_def)
  show ?thesis
    unfolding thread_inv_def
    using self_entry [OF i(1) assms(2)] self_lock [OF i(2) i(4) assms(2)]
      self_cond [OF i(3) assms(2)] self_attempt [OF i(4) assms(2)]
    by simp
qed

lemma thread_inv_other:
  assumes "thread_inv s t" and "thread_inv s u" and "u \<noteq> t" and "u < length (threads s)"
    and "step t s = Some s'"
  shows "thread_inv s' u"
proof -
  from assms(1) have i: "(entry_lock s = Some t) = holds_entry (threads s ! t)"
    "(lock s = Some t) = holds_lock (threads s ! t)"
    "(condition s = Some t) = holds_condition (threads s ! t)"
    "attempt_ok (threads s ! t)"
    by (simp_all add: thread_inv_def)
  from assms(2) have j: "(entry_lock s = Some u) = holds_entry (threads s ! u)"
    "(lock s = Some u) = holds_lock (threads s ! u)"
    "(condition s = Some u) = holds_condition (threads s ! u)"
    "attempt_ok (threads s ! u)"
    by (simp_all add: thread_inv_def)
  have "attempt_ok (threads s' ! u)"
    using j(4) step_other [OF assms(5) assms(3)] by simp
  thus ?thesis
    unfolding thread_inv_def
    using other_entry [OF i(1) j(1) assms(3,4,5)] other_lock [OF i(2) j(2) assms(3,4,5) i(4)]
      other_cond [OF i(3) j(3) assms(3,4,5)]
    by simp
qed

lemma locks_inv_step:
  assumes "locks_inv s" and "step t s = Some s'"
  shows "locks_inv s'"
  unfolding locks_inv_def
proof (intro allI impI)
  fix u assume "u < length (threads s')"
  hence u: "u < length (threads s)" using assms(2) by (simp add: step_length)
  have t: "t < length (threads s)" using assms(2) by (rule step_in_range)
  from assms(1) u t have iu: "thread_inv s u" and it: "thread_inv s t"
    by (auto simp: locks_inv_def)
  show "thread_inv s' u"
  proof (cases "u = t")
    case True
    with it assms(2) show ?thesis by (simp add: thread_inv_self)
  next
    case False
    with it iu u assms(2) show ?thesis by (blast intro: thread_inv_other)
  qed
qed

lemma reachable_locks_inv: "reachable s \<Longrightarrow> locks_inv s"
  by (induction rule: reachable.induct) (auto intro: locks_inv_initial locks_inv_step)

lemma exec_reachable: "reachable s \<Longrightarrow> exec ts s = Some s' \<Longrightarrow> reachable s'"
  by (induction ts arbitrary: s) (auto split: option.splits intro: reachable.after_step)

subsection \<open>The counters count threads\<close>

lemma tally_update:
  "t < length xs \<Longrightarrow>
     tally P (xs[t := x]) = tally P xs + (if P x then 1 else 0) - (if P (xs ! t) then 1 else 0)"
proof (induction xs arbitrary: t)
  case Nil
  then show ?case by simp
next
  case (Cons a xs)
  show ?case
  proof (cases t)
    case 0
    then show ?thesis by (simp add: tally_def)
  next
    case (Suc k)
    with Cons.prems have "k < length xs" by simp
    from Cons.IH [OF this] Suc show ?thesis by (auto simp: tally_def split: if_splits)
  qed
qed

lemma tally_nonneg: "0 \<le> tally P xs"
  by (simp add: tally_def)

lemma tally_none: "list_all (\<lambda>x. \<not> P x) xs \<Longrightarrow> tally P xs = 0"
  by (induction xs) (auto simp: tally_def)

lemma local_inv_new: "local_inv (new_thread sc)"
  by (cases sc) (simp_all add: local_inv_def new_thread_def first_pc_def)

lemma local_inv_self:
  assumes "local_inv (threads s ! t)" and "step t s = Some s'"
  shows "local_inv (threads s' ! t)"
  using assms step_in_range [OF assms(2)]
  by (cases "pc (threads s ! t)";
      clarsimp simp: step_def Let_def step_defs local_inv_def split: if_splits script.splits)

lemma reachable_local_inv:
  "reachable s \<Longrightarrow> u < length (threads s) \<Longrightarrow> local_inv (threads s ! u)"
proof (induction arbitrary: u rule: reachable.induct)
  case (fresh scs)
  then show ?case by (simp add: initial_def local_inv_new)
next
  case (after_step s t s')
  from after_step.prems after_step.hyps(2) have u: "u < length (threads s)"
    by (simp add: step_length)
  show ?case
  proof (cases "u = t")
    case True
    with after_step.IH [OF u] after_step.hyps(2) show ?thesis
      by (simp add: local_inv_self)
  next
    case False
    with after_step.IH [OF u] after_step.hyps(2) show ?thesis
      by (simp add: step_other)
  qed
qed

lemma step_count:
  assumes "local_inv (threads s ! t)" and "step t s = Some s'"
  shows "count s' - tally in_shared (threads s') = count s - tally in_shared (threads s)"
  using assms step_in_range [OF assms(2)]
  by (cases "pc (threads s ! t)";
      clarsimp simp: step_def Let_def step_defs local_inv_def in_shared_def tally_update
        split: if_splits script.splits)


lemma tally_initial_shared: "tally in_shared (map new_thread scs) = 0"
  by (induction scs)
     (auto simp: tally_def in_shared_def new_thread_def first_pc_def split: script.splits)


lemma reachable_count: "reachable s \<Longrightarrow> count s = tally in_shared (threads s)"
proof (induction rule: reachable.induct)
  case (fresh scs)
  then show ?case by (simp add: initial_def tally_initial_shared)
next
  case (after_step s t s')
  have "local_inv (threads s ! t)"
    using after_step.hyps by (simp add: reachable_local_inv step_in_range)
  from step_count [OF this after_step.hyps(2)] after_step.IH show ?case by simp
qed


subsection \<open>Consequences of the ownership invariant\<close>

lemma reachable_thread_inv:
  "reachable s \<Longrightarrow> u < length (threads s) \<Longrightarrow> thread_inv s u"
  using reachable_locks_inv [of s] by (simp add: locks_inv_def)








lemma waiters_inv_step:
  assumes "waiters_inv s" and "step t s = Some s'"
  shows "waiters_inv s'"
  using assms step_in_range [OF assms(2)]
  by (cases "pc (threads s ! t)";
      clarsimp simp: step_def Let_def step_defs waiters_inv_def list_all_iff nth_list_update
        split: if_splits script.splits dest!: in_set_dropD)

lemma reachable_waiters_inv: "reachable s \<Longrightarrow> waiters_inv s"
proof (induction rule: reachable.induct)
  case (fresh scs)
  then show ?case by (simp add: initial_def waiters_inv_def)
next
  case (after_step s t s')
  then show ?case by (simp add: waiters_inv_step)
qed

lemma at_most_one_waiter:
  assumes "reachable s"
  shows "length (waiters s) \<le> 1"
proof (cases "waiters s")
  case Nil
  then show ?thesis by simp
next
  case (Cons w ws)
  note outer = Cons
  show ?thesis
  proof (cases ws)
    case Nil
    with outer show ?thesis by simp
  next
    case (Cons v vs)
    from reachable_waiters_inv [OF assms] outer Cons
    have d: "w \<noteq> v" and w: "w < length (threads s)" "pc (threads s ! w) = Wait_blocked"
      and v: "v < length (threads s)" "pc (threads s ! v) = Wait_blocked"
      by (simp_all add: waiters_inv_def)
    from reachable_thread_inv [OF assms w(1)] w(2) have "entry_lock s = Some w"
      by (simp add: thread_inv_def holds_entry_def)
    moreover from reachable_thread_inv [OF assms v(1)] v(2) have "entry_lock s = Some v"
      by (simp add: thread_inv_def holds_entry_def)
    ultimately show ?thesis using d by simp
  qed
qed

subsection \<open>Runs that reach the states above\<close>

lemmas run_defs = step_def initial_def new_thread_def first_pc_def step_defs numeral_eq_Suc

lemma run_reachable: "exec ts (initial scs) = Some s \<Longrightarrow> reachable s"
  using exec_reachable [OF reachable.fresh] by blast

lemma contested_run: "exec (replicate 11 0) (initial [BareExcl, BareExcl]) = Some contested"
  by (simp add: run_defs contested_def)





lemma sleeping_run:
  "exec (replicate 8 0 @ replicate 8 1 @ replicate 8 2 @ [0])
     (initial [SharedWork False, SharedWork False, BareExcl]) = Some sleeping"
  by (simp add: run_defs sleeping_def)


lemma working_run:
  "exec (replicate 7 0 @ replicate 7 1) (initial [SharedWork True, SharedWork False]) = Some working"
  by (simp add: run_defs working_def)

lemma all_done_run:
  "exec (replicate 7 0 @ replicate 3 1 @ [0, 1, 1, 1, 0, 1, 0, 1, 0, 1, 1, 1])
     (initial [SharedWork True, SharedWork False]) = Some all_done"
  by (simp add: run_defs all_done_def)

lemma reachable_contested: "reachable contested"
  using contested_run by (rule run_reachable)





lemma reachable_sleeping: "reachable sleeping"
  using sleeping_run by (rule run_reachable)


lemma reachable_working: "reachable working"
  using working_run by (rule run_reachable)

lemma reachable_all_done: "reachable all_done"
  using all_done_run by (rule run_reachable)

lemma sleeping_step:
  "step 0 sleeping = Some (goto 0 TcExit_cond_release (sleeping\<lparr>count := 1, waiters := []\<rparr>))"
  by (simp add: step_def sleeping_def notify_def)





lemma removed_run: "exec (replicate 23 0) (initial [SharedExcl]) = Some removed"
  by (simp add: run_defs removed_def)

lemma turned_away_run:
  "exec (replicate 7 0 @ replicate 11 1 @ replicate 12 0 @ replicate 4 1)
     (initial [SharedExcl, SharedExcl]) = Some turned_away"
  by (simp add: run_defs turned_away_def)

lemma leaving_run:
  "exec (replicate 7 0 @ replicate 11 1 @ replicate 12 0 @ replicate 5 1)
     (initial [SharedExcl, SharedExcl]) = Some leaving"
  by (simp add: run_defs leaving_def)

lemma both_left_run:
  "exec (replicate 7 0 @ replicate 11 1 @ replicate 12 0 @ replicate 8 1 @ replicate 8 0)
     (initial [SharedExcl, SharedExcl]) = Some both_left"
  by (simp add: run_defs both_left_def)






lemma reachable_removed: "reachable removed"
  using removed_run by (rule run_reachable)

lemma reachable_turned_away: "reachable turned_away"
  using turned_away_run by (rule run_reachable)

lemma reachable_leaving: "reachable leaving"
  using leaving_run by (rule run_reachable)

lemma reachable_both_left: "reachable both_left"
  using both_left_run by (rule run_reachable)

section \<open>The claims\<close>

text \<open>
  C1. The claim: an exclusive attempt that fails with Busy still runs
  \<^verbatim>\<open>remove_blocking_candidate\<close>, so the counters and the flag are afterwards what they
  were before the attempt. The code does not do that: \<^verbatim>\<open>ChatLock.__enter__\<close> raises
  after \<^verbatim>\<open>add_blocking_candidate\<close>, and a \<^verbatim>\<open>with\<close> statement whose \<^verbatim>\<open>__enter__\<close>
  raises never calls \<^verbatim>\<open>__exit__\<close>. On the contested gate (one candidate, flag held by
  thread 0, reached by thread 0 entering) the eight steps of thread 1's attempt end
  with Busy and leave two candidates.
\<close>

theorem busy_attempt_leaves_candidate:
  "exec (replicate 11 0) (initial [BareExcl, BareExcl]) = Some contested \<and>
   exec (replicate 8 1) contested = Some refused \<and>
   blocking_candidates_count contested = 1 \<and> blocking_candidates_count refused = 2 \<and>
   lock refused = lock contested \<and> count refused = count contested"
  by (simp add: run_defs contested_def refused_def)

text \<open>
  C3. The claim: the candidate count is 0 whenever no exclusive attempt is outstanding.
  Two threads run \<^verbatim>\<open>with chat_lock: pass\<close>: thread 0 enters, thread 1 attempts and gets
  Busy, thread 0 leaves its \<^verbatim>\<open>with\<close> block. Then both threads have finished, no
  attempt is outstanding, and the count of candidates is 1: the candidate that the Busy
  attempt added is never removed.
\<close>

theorem candidate_remains_after_busy:
  "exec (replicate 11 0 @ replicate 8 1 @ replicate 5 0) (initial [BareExcl, BareExcl]) =
     Some \<lparr>count = 0, blocking_candidates_count = 1, lock = None,
       entry_lock = None, condition = None, waiters = [],
       threads = [\<lparr>script = BareExcl, pc = Finished, unblocked = True, exc = None\<rparr>,
                  \<lparr>script = BareExcl, pc = Finished, unblocked = False, exc = Some Busy\<rparr>]\<rparr>"
  by (simp add: run_defs)










lemma wake_effects:
  assumes "t < length (threads s)" and "step t s = Some s'"
  shows "(pc (threads s ! t) = TcExit_decr \<longrightarrow>
            count s' = count s - 1 \<and> waiters s' = notify 1 (waiters s)) \<and>
         (pc (threads s ! t) = Add_incr \<longrightarrow>
            blocking_candidates_count s' = blocking_candidates_count s + 1 \<and>
            waiters s' = notify_all (waiters s)) \<and>
         (pc (threads s ! t) = Rem_decr \<longrightarrow>
            blocking_candidates_count s' = blocking_candidates_count s - 1 \<and>
            waiters s' = notify_all (waiters s))"
  using assms by (auto simp: step_def goto_def)

lemma notify_one_is_all: "length ws \<le> 1 \<Longrightarrow> notify 1 ws = notify_all ws"
  by (cases ws) (simp_all add: notify_def notify_all_def)

text \<open>
  C5. The claim: every operation that changes a counter wakes the sleepers with a
  broadcast. \<^verbatim>\<open>ChatThreadcount.__exit__\<close> calls \<^verbatim>\<open>notify()\<close>, which wakes one sleeper (the
  source says why: there can only be one blocking thread); the two candidate operations
  call \<^verbatim>\<open>notify_all()\<close>. Amended and proved: the exit decrements the count and wakes
  the oldest sleeper, which in every reachable state of the gate is every sleeper;
  adding and removing a candidate change the candidate count by one and wake all.
\<close>

theorem exit_wakes_one_candidates_wake_all:
  assumes "t < length (threads s)" and "step t s = Some s'"
  shows "(pc (threads s ! t) = TcExit_decr \<longrightarrow>
            count s' = count s - 1 \<and> waiters s' = notify 1 (waiters s) \<and>
            (reachable s \<longrightarrow> waiters s' = notify_all (waiters s))) \<and>
         (pc (threads s ! t) = Add_incr \<longrightarrow>
            blocking_candidates_count s' = blocking_candidates_count s + 1 \<and>
            waiters s' = notify_all (waiters s)) \<and>
         (pc (threads s ! t) = Rem_decr \<longrightarrow>
            blocking_candidates_count s' = blocking_candidates_count s - 1 \<and>
            waiters s' = notify_all (waiters s))"
  using wake_effects [OF assms] notify_one_is_all [OF at_most_one_waiter, of s]
  by auto

lemma two_sleepers_step:
  "step 0 two_sleepers =
     Some (goto 0 TcExit_cond_release (two_sleepers\<lparr>count := 2, waiters := [2]\<rparr>))"
  by (simp add: step_def two_sleepers_def notify_def)

lemma adding_step:
  "step 0 adding =
     Some (goto 0 Add_cond_release (adding\<lparr>blocking_candidates_count := 1, waiters := []\<rparr>))"
  by (simp add: step_def adding_def notify_def notify_all_def)

lemma removing_step:
  "step 0 removing =
     Some (goto 0 Rem_cond_release (removing\<lparr>blocking_candidates_count := 0, waiters := []\<rparr>))"
  by (simp add: step_def removing_def notify_def notify_all_def)

theorem exit_wakes_one_candidates_wake_all_witness:
  "0 < length (threads sleeping) \<and> pc (threads sleeping ! 0) = TcExit_decr \<and>
   reachable sleeping \<and> waiters sleeping = [2] \<and>
   (\<exists>s'. step 0 sleeping = Some s' \<and> count s' = count sleeping - 1 \<and>
      waiters s' = notify 1 (waiters sleeping) \<and> waiters s' = notify_all (waiters sleeping)) \<and>
   0 < length (threads adding) \<and> pc (threads adding ! 0) = Add_incr \<and>
   (\<exists>s'. step 0 adding = Some s' \<and>
      blocking_candidates_count s' = blocking_candidates_count adding + 1 \<and>
      waiters s' = notify_all (waiters adding)) \<and>
   0 < length (threads removing) \<and> pc (threads removing ! 0) = Rem_decr \<and>
   (\<exists>s'. step 0 removing = Some s' \<and>
      blocking_candidates_count s' = blocking_candidates_count removing - 1 \<and>
      waiters s' = notify_all (waiters removing))"
proof -
  have h: "0 < length (threads sleeping)" "pc (threads sleeping ! 0) = TcExit_decr"
    "waiters sleeping = [2]"
    by (simp_all add: sleeping_def)
  have r: "reachable sleeping" by (rule reachable_sleeping)
  from exit_wakes_one_candidates_wake_all [OF h(1) sleeping_step] h(2) r sleeping_step
  have a: "\<exists>s'. step 0 sleeping = Some s' \<and> count s' = count sleeping - 1 \<and>
      waiters s' = notify 1 (waiters sleeping) \<and> waiters s' = notify_all (waiters sleeping)"
    by blast
  have i: "0 < length (threads adding)" "pc (threads adding ! 0) = Add_incr"
    by (simp_all add: adding_def)
  from exit_wakes_one_candidates_wake_all [OF i(1) adding_step] i(2) adding_step
  have b: "\<exists>s'. step 0 adding = Some s' \<and>
      blocking_candidates_count s' = blocking_candidates_count adding + 1 \<and>
      waiters s' = notify_all (waiters adding)"
    by blast
  have j: "0 < length (threads removing)" "pc (threads removing ! 0) = Rem_decr"
    by (simp_all add: removing_def)
  from exit_wakes_one_candidates_wake_all [OF j(1) removing_step] j(2) removing_step
  have c: "\<exists>s'. step 0 removing = Some s' \<and>
      blocking_candidates_count s' = blocking_candidates_count removing - 1 \<and>
      waiters s' = notify_all (waiters removing)"
    by blast
  from h r a i b j c show ?thesis by blast
qed

text \<open>
  The claim as stated fails where two threads sleep on the condition: the exit wakes
  the first and leaves the second asleep.
\<close>

theorem exit_broadcast_counterexample:
  "\<not> (\<forall>s t s'. t < length (threads s) \<and> step t s = Some s' \<and> pc (threads s ! t) = TcExit_decr
         \<longrightarrow> waiters s' = notify_all (waiters s))"
proof
  assume "\<forall>s t s'. t < length (threads s) \<and> step t s = Some s' \<and> pc (threads s ! t) = TcExit_decr
         \<longrightarrow> waiters s' = notify_all (waiters s)"
  moreover have "0 < length (threads two_sleepers)" "pc (threads two_sleepers ! 0) = TcExit_decr"
    by (simp_all add: two_sleepers_def)
  moreover note two_sleepers_step
  ultimately have "waiters (goto 0 TcExit_cond_release (two_sleepers\<lparr>count := 2, waiters := [2]\<rparr>))
      = notify_all (waiters two_sleepers)" by blast
  thus False by (simp add: goto_def two_sleepers_def notify_all_def notify_def)
qed













lemma own_count_change:
  assumes "step t s = Some s'"
  shows "count s' = count s + (if pc (threads s ! t) = TcEnter_incr then 1
                               else if pc (threads s ! t) = TcExit_decr then - 1 else 0)"
  using assms step_in_range [OF assms]
  by (cases "pc (threads s ! t)";
      clarsimp simp: step_def Let_def step_defs split: if_splits script.splits)

lemma target_to_exit:
  assumes "t < length (threads s)" and "pc (threads s ! t) = Target"
    and "script (threads s ! t) = SharedWork raises"
  shows "\<exists>s'. step t s = Some s' \<and> pc (threads s' ! t) = TcExit_cond_acquire \<and>
           exc (threads s' ! t) = (if raises then Some TargetError else exc (threads s ! t))"
  using assms by (simp add: step_def step_defs)

lemma target_run_to_end:
  assumes "t < length (threads s)" and "pc (threads s ! t) = Target"
    and "script (threads s ! t) = SharedWork raises" and "condition s = None"
  shows "\<exists>s'. exec [t, t, t, t] s = Some s' \<and> count s' = count s - 1 \<and>
           pc (threads s' ! t) = Finished \<and>
           exc (threads s' ! t) = (if raises then Some TargetError else exc (threads s ! t)) \<and>
           condition s' = None \<and> step t s' = None"
  using assms by (simp add: step_def step_defs)

lemma busy_to_exit:
  assumes "t < length (threads s)" and "pc (threads s ! t) = ClEnter_if_not_unblocked"
    and "\<not> unblocked (threads s ! t)" and "script (threads s ! t) \<noteq> BareExcl"
  shows "\<exists>s'. step t s = Some s' \<and> pc (threads s' ! t) = TcExit_cond_acquire \<and>
           exc (threads s' ! t) = Some Busy"
  using assms by (cases "script (threads s ! t)") (simp_all add: step_def step_defs)

lemma release_to_exit:
  assumes "t < length (threads s)" and "pc (threads s ! t) = Rem_cond_release"
    and "script (threads s ! t) \<noteq> BareExcl"
  shows "\<exists>s'. step t s = Some s' \<and> pc (threads s' ! t) = TcExit_cond_acquire \<and>
           exc (threads s' ! t) = exc (threads s ! t)"
  using assms by (cases "script (threads s ! t)") (simp_all add: step_def step_defs)

lemma exit_run_to_end:
  assumes "t < length (threads s)" and "pc (threads s ! t) = TcExit_cond_acquire"
    and "condition s = None"
  shows "\<exists>s'. exec [t, t, t] s = Some s' \<and> count s' = count s - 1 \<and>
           pc (threads s' ! t) = Finished \<and> exc (threads s' ! t) = exc (threads s ! t) \<and>
           condition s' = None \<and> step t s' = None"
  using assms by (simp add: step_def step_defs)

lemma exit_waits_for_mutex_only:
  assumes "t < length (threads s)" and "pc (threads s ! t) = TcExit_cond_acquire"
  shows "(step t s = None) = (condition s \<noteq> None)"
  using assms by (simp add: step_def)

lemma all_finished_count:
  assumes "reachable s" and "list_all (\<lambda>th. pc th = Finished) (threads s)"
  shows "count s = 0"
proof -
  from assms(2) have "list_all (\<lambda>th. \<not> in_shared th) (threads s)"
    by (simp add: list_all_iff in_shared_def)
  hence "tally in_shared (threads s) = 0" by (rule tally_none)
  with reachable_count [OF assms(1)] show ?thesis by simp
qed

text \<open>
  C8. \<^verbatim>\<open>Plugin._thread_start\<close> leaves the threadcount context exactly once after the
  work, however the work ends. For every thread that runs inside \<^verbatim>\<open>_thread_start\<close>, in
  every reachable state: a target that returns or raises, a \<^verbatim>\<open>with self.chat_lock\<close> that
  is refused with Busy, and one that completes, all continue at
  \<^verbatim>\<open>ChatThreadcount.__exit__\<close> with the exception (if any) kept; there the thread waits
  for the condition's mutex only, and with the mutex free three steps decrement the
  count by one and finish the thread, which has no further step; no other step of the
  thread than the increment and this decrement changes the count; and when all threads
  have finished the count is 0.
\<close>

theorem exit_shared_once_after_work:
  assumes "reachable s" and "t < length (threads s)" and "script (threads s ! t) \<noteq> BareExcl"
  shows "(\<forall>raises. pc (threads s ! t) = Target \<and> script (threads s ! t) = SharedWork raises \<longrightarrow>
            (\<exists>s'. step t s = Some s' \<and> pc (threads s' ! t) = TcExit_cond_acquire \<and>
               exc (threads s' ! t) = (if raises then Some TargetError else exc (threads s ! t)))) \<and>
         (\<forall>raises. pc (threads s ! t) = Target \<and> script (threads s ! t) = SharedWork raises \<and>
              condition s = None \<longrightarrow>
            (\<exists>s'. exec [t, t, t, t] s = Some s' \<and> count s' = count s - 1 \<and>
               pc (threads s' ! t) = Finished \<and>
               exc (threads s' ! t) = (if raises then Some TargetError else exc (threads s ! t)) \<and>
               condition s' = None \<and> step t s' = None)) \<and>
         (pc (threads s ! t) = ClEnter_if_not_unblocked \<and> \<not> unblocked (threads s ! t) \<longrightarrow>
            (\<exists>s'. step t s = Some s' \<and> pc (threads s' ! t) = TcExit_cond_acquire \<and>
               exc (threads s' ! t) = Some Busy)) \<and>
         (pc (threads s ! t) = Rem_cond_release \<longrightarrow>
            (\<exists>s'. step t s = Some s' \<and> pc (threads s' ! t) = TcExit_cond_acquire \<and>
               exc (threads s' ! t) = exc (threads s ! t))) \<and>
         (pc (threads s ! t) = TcExit_cond_acquire \<longrightarrow>
            (step t s = None) = (condition s \<noteq> None)) \<and>
         (pc (threads s ! t) = TcExit_cond_acquire \<and> condition s = None \<longrightarrow>
            (\<exists>s'. exec [t, t, t] s = Some s' \<and> count s' = count s - 1 \<and>
               pc (threads s' ! t) = Finished \<and> exc (threads s' ! t) = exc (threads s ! t) \<and>
               condition s' = None \<and> step t s' = None)) \<and>
         (\<forall>s'. step t s = Some s' \<longrightarrow>
            count s' = count s + (if pc (threads s ! t) = TcEnter_incr then 1
                                  else if pc (threads s ! t) = TcExit_decr then - 1 else 0)) \<and>
         (list_all (\<lambda>th. pc th = Finished) (threads s) \<longrightarrow> count s = 0)"
  using target_to_exit [OF assms(2)] target_run_to_end [OF assms(2)]
    busy_to_exit [OF assms(2) _ _ assms(3)] release_to_exit [OF assms(2) _ assms(3)]
    exit_waits_for_mutex_only [OF assms(2)] exit_run_to_end [OF assms(2)]
    own_count_change [of t s] all_finished_count [OF assms(1)]
  by blast


theorem exit_shared_once_after_work_witness:
  "reachable working \<and> 0 < length (threads working) \<and> pc (threads working ! 0) = Target \<and>
   script (threads working ! 0) = SharedWork True \<and> condition working = None \<and>
   (\<exists>s'. exec [0, 0, 0, 0] working = Some s' \<and> count s' = count working - 1 \<and>
      pc (threads s' ! 0) = Finished \<and> exc (threads s' ! 0) = Some TargetError \<and>
      condition s' = None \<and> step 0 s' = None) \<and>
   1 < length (threads working) \<and> pc (threads working ! 1) = Target \<and>
   script (threads working ! 1) = SharedWork False \<and>
   (\<exists>s'. exec [1, 1, 1, 1] working = Some s' \<and> count s' = count working - 1 \<and>
      pc (threads s' ! 1) = Finished \<and> exc (threads s' ! 1) = None \<and>
      condition s' = None \<and> step 1 s' = None) \<and>
   reachable turned_away \<and> 1 < length (threads turned_away) \<and>
   script (threads turned_away ! 1) = SharedExcl \<and>
   pc (threads turned_away ! 1) = ClEnter_if_not_unblocked \<and>
   \<not> unblocked (threads turned_away ! 1) \<and>
   (\<exists>s'. step 1 turned_away = Some s' \<and> pc (threads s' ! 1) = TcExit_cond_acquire \<and>
      exc (threads s' ! 1) = Some Busy) \<and>
   reachable leaving \<and> 1 < length (threads leaving) \<and>
   script (threads leaving ! 1) = SharedExcl \<and>
   pc (threads leaving ! 1) = TcExit_cond_acquire \<and> condition leaving = None \<and>
   exc (threads leaving ! 1) = Some Busy \<and>
   (\<exists>s'. exec [1, 1, 1] leaving = Some s' \<and> count s' = count leaving - 1 \<and>
      pc (threads s' ! 1) = Finished \<and> exc (threads s' ! 1) = Some Busy \<and>
      condition s' = None \<and> step 1 s' = None) \<and>
   reachable removed \<and> 0 < length (threads removed) \<and>
   script (threads removed ! 0) = SharedExcl \<and> pc (threads removed ! 0) = Rem_cond_release \<and>
   (\<exists>s'. step 0 removed = Some s' \<and> pc (threads s' ! 0) = TcExit_cond_acquire \<and>
      exc (threads s' ! 0) = None) \<and>
   reachable both_left \<and> list_all (\<lambda>th. pc th = Finished) (threads both_left) \<and>
   count both_left = 0"
proof -
  have r: "reachable working" by (rule reachable_working)
  have h: "0 < length (threads working)" "pc (threads working ! 0) = Target"
    "script (threads working ! 0) = SharedWork True" "condition working = None"
    "1 < length (threads working)" "pc (threads working ! 1) = Target"
    "script (threads working ! 1) = SharedWork False" "exc (threads working ! 1) = None"
    "script (threads working ! 0) \<noteq> BareExcl" "script (threads working ! 1) \<noteq> BareExcl"
    by (simp_all add: working_def)
  from exit_shared_once_after_work [OF r h(1) h(9)] h(2,3,4)
  have a: "\<exists>s'. exec [0, 0, 0, 0] working = Some s' \<and> count s' = count working - 1 \<and>
      pc (threads s' ! 0) = Finished \<and> exc (threads s' ! 0) = Some TargetError \<and>
      condition s' = None \<and> step 0 s' = None"
    by (auto simp del: exec.simps)
  from exit_shared_once_after_work [OF r h(5) h(10)] h(6,7,4,8)
  have b: "\<exists>s'. exec [1, 1, 1, 1] working = Some s' \<and> count s' = count working - 1 \<and>
      pc (threads s' ! 1) = Finished \<and> exc (threads s' ! 1) = None \<and>
      condition s' = None \<and> step 1 s' = None"
    by (auto simp del: exec.simps)
  have rt: "reachable turned_away" by (rule reachable_turned_away)
  have ht: "1 < length (threads turned_away)" "script (threads turned_away ! 1) = SharedExcl"
    "pc (threads turned_away ! 1) = ClEnter_if_not_unblocked"
    "\<not> unblocked (threads turned_away ! 1)" "script (threads turned_away ! 1) \<noteq> BareExcl"
    by (simp_all add: turned_away_def)
  from exit_shared_once_after_work [OF rt ht(1) ht(5)] ht(3,4)
  have c: "\<exists>s'. step 1 turned_away = Some s' \<and> pc (threads s' ! 1) = TcExit_cond_acquire \<and>
      exc (threads s' ! 1) = Some Busy"
    by blast
  have rl: "reachable leaving" by (rule reachable_leaving)
  have hl: "1 < length (threads leaving)" "script (threads leaving ! 1) = SharedExcl"
    "pc (threads leaving ! 1) = TcExit_cond_acquire" "condition leaving = None"
    "exc (threads leaving ! 1) = Some Busy" "script (threads leaving ! 1) \<noteq> BareExcl"
    by (simp_all add: leaving_def)
  from exit_shared_once_after_work [OF rl hl(1) hl(6)] hl(3,4,5)
  have d: "\<exists>s'. exec [1, 1, 1] leaving = Some s' \<and> count s' = count leaving - 1 \<and>
      pc (threads s' ! 1) = Finished \<and> exc (threads s' ! 1) = Some Busy \<and>
      condition s' = None \<and> step 1 s' = None"
    by (auto simp del: exec.simps)
  have rr: "reachable removed" by (rule reachable_removed)
  have hr: "0 < length (threads removed)" "script (threads removed ! 0) = SharedExcl"
    "pc (threads removed ! 0) = Rem_cond_release" "exc (threads removed ! 0) = None"
    "script (threads removed ! 0) \<noteq> BareExcl"
    by (simp_all add: removed_def)
  from exit_shared_once_after_work [OF rr hr(1) hr(5)] hr(3,4)
  have e: "\<exists>s'. step 0 removed = Some s' \<and> pc (threads s' ! 0) = TcExit_cond_acquire \<and>
      exc (threads s' ! 0) = None"
    by (auto simp del: exec.simps)
  have rb: "reachable both_left" by (rule reachable_both_left)
  have hb: "0 < length (threads both_left)" "script (threads both_left ! 0) \<noteq> BareExcl"
    "list_all (\<lambda>th. pc th = Finished) (threads both_left)"
    by (simp_all add: both_left_def)
  from exit_shared_once_after_work [OF rb hb(1,2)] hb(3)
  have f: "count both_left = 0" by blast
  from r h(1-7) a b rt ht(1-4) c rl hl(1-5) d rr hr(1-3) e rb hb(3) f
  show ?thesis by blast
qed

text \<open>
  C9. In every reachable state the count of active threads is the number of threads
  between their increment and their decrement of \<^verbatim>\<open>self._count\<close>; so it is never
  negative, and it is 0 whenever no thread is in shared mode. This holds with and
  without exclusive attempts.
\<close>

theorem active_count_counts_shared_threads:
  assumes "reachable s"
  shows "0 \<le> count s \<and> count s = tally in_shared (threads s) \<and>
         (list_all (\<lambda>th. \<not> in_shared th) (threads s) \<longrightarrow> count s = 0)"
  using reachable_count [OF assms] tally_nonneg [of in_shared "threads s"]
    tally_none [of in_shared "threads s"]
  by simp

theorem active_count_counts_shared_threads_witness:
  "reachable all_done \<and> 0 \<le> count all_done \<and>
   list_all (\<lambda>th. \<not> in_shared th) (threads all_done) \<and> count all_done = 0 \<and>
   reachable working \<and> 0 \<le> count working \<and> count working = tally in_shared (threads working)"
proof -
  have r: "reachable all_done" by (rule reachable_all_done)
  have h: "list_all (\<lambda>th. \<not> in_shared th) (threads all_done)"
    by (simp add: all_done_def in_shared_def)
  have r': "reachable working" by (rule reachable_working)
  from active_count_counts_shared_threads [OF r] active_count_counts_shared_threads [OF r'] h r r'
  show ?thesis by blast
qed















end
